theory Spec2Isabelle
  imports Complex_Main "HOL-Library.Log_Nat"
begin

section \<open>The DSAT what-if analyzer (src/analysis.py, class DSATWhatIfAnalyzer)\<close>

text \<open>
  Conventions of the embedding.
  \<^item> Python's unbounded integers are \<open>int\<close>.
  \<^item> A float is the rational number it denotes. In the classifier
    \<open>determine_module2_difficulty\<close>, whose arguments are arbitrary integers, Python's
    true division \<open>a / b\<close> is \<open>py_truediv\<close>: the exact quotient rounded to the nearest
    binary64 number, ties to even, with \<open>ZeroDivisionError\<close> and \<open>OverflowError\<close> as
    results. A raise ends the call, and every caller passes it on.
  \<^item> The other quotients of the source (seconds, accuracies of counts, the prediction
    of the calibrator) and the constants they are compared with (\<open>0.5\<close>, \<open>60\<close>, the
    grid of \<open>np.arange(0.3, 0.8, 0.05)\<close>) are kept as exact rational numbers. Every
    such quotient stands under the zero test the source writes for it, and the model
    keeps that test, so HOL's \<open>x / 0 = 0\<close> is never what a result rests on.
  \<^item> A dictionary of a JSON record is a record type; a key read with \<open>.get\<close> is an
    \<open>option\<close> field, \<open>None\<close> when the key is absent; a key that is present holds a
    value of its type, never \<open>null\<close>.
  \<^item> \<open>print\<close> is an event of a trace that every method returns beside its value; the
    trace also records each entry into the classifier and into the calculator.
\<close>

subsection \<open>Data\<close>

datatype py_error = ZeroDivisionError | OverflowError | KeyError string

datatype difficulty = Hard | Easy

record score_entry =
  raw :: int
  hard :: int
  easy :: int

record scoring_item =
  key :: string
  map_entries :: "score_entry list"

record analyzer =
  scoring_maps :: "scoring_item list"
  adaptive_threshold :: rat
  placeholder_scoring :: bool

text \<open>
  One response of \<open>student_data\<close>. \<open>subject_name\<close> is \<open>q.get('subject', {}).get('name')\<close>,
  \<open>topic_name\<close> is \<open>q.get('topic', {}).get('name')\<close>, \<open>section_tag\<close> is \<open>q.get('section')\<close>,
  \<open>rec_id\<close> is \<open>q.get('_id')\<close>, and \<open>correct\<close> is the truth value of \<open>q.get('correct')\<close>.
\<close>

record response =
  question_id :: "string option"
  rec_id :: "string option"
  subject_name :: "string option"
  section_tag :: "string option"
  topic_name :: "string option"
  correct :: bool
  time_spent :: "int option"
  compleixty :: "string option"
  complexity :: "string option"

datatype event =
    Enter_determine_module2_difficulty int int
  | Enter_calculate_scaled_score string int difficulty
  | Print_default_easy
  | Print_no_scoring_map string
  | Print_skipping_scoring string string
  | Print_module1_only string string

record module1_summary =
  correct1 :: int
  total1 :: int
  accuracy1 :: rat

record module2_summary =
  correct2 :: int
  total2 :: int
  difficulty2 :: difficulty

record slow_question =
  slow_question_id :: "string option"
  slow_topic :: "string option"
  time_spent_s :: rat

record topic_stats =
  topic_correct :: int
  topic_total :: int
  topic_time_spent_s :: "rat list"

text \<open>
  The summary of one subject. The source renders the values of \<open>weak_topics\<close> and
  \<open>topic_clusters\<close> as text with two decimals; the model keeps the numbers that are
  rendered: the accuracy in percent, and (for a cluster) the mean time in seconds.
  Both dictionaries keep Python's insertion order, so they are association lists.
\<close>

record performance =
  Module_1 :: module1_summary
  Module_2 :: module2_summary
  raw_score :: int
  scaled_score :: int
  slow_questions :: "slow_question list"
  weak_topics :: "(string \<times> rat) list"
  topic_clusters :: "(string \<times> rat \<times> rat) list"

record high_impact_question =
  impact_question_id :: "string option"
  impact_topic :: "string option"
  impact_complexity :: string

record what_if_result =
  current_score :: int
  new_score :: int
  score_gain :: int
  high_impact_questions :: "high_impact_question list"

record threshold_sample =
  module1_correct :: int
  module1_total :: int
  got_hard_module2 :: bool

subsection \<open>Construction: \<open>__init__\<close>\<close>

definition placeholder_maps :: "scoring_item list" where
  "placeholder_maps =
     [\<lparr>key = ''Math'',
       map_entries = map (\<lambda>i. \<lparr>raw = int i, hard = 200 + int i * 15, easy = 200 + int i * 10\<rparr>) [0..<45]\<rparr>,
      \<lparr>key = ''Reading and Writing'',
       map_entries = map (\<lambda>i. \<lparr>raw = int i, hard = 200 + int i * 11, easy = 200 + int i * 8\<rparr>) [0..<55]\<rparr>]"

text \<open>\<open>not scoring_maps\<close> holds for \<open>None\<close> and for the empty list.\<close>

definition init :: "scoring_item list option \<Rightarrow> rat \<Rightarrow> analyzer" where
  "init maps threshold =
     (case maps of
        None \<Rightarrow> \<lparr>scoring_maps = placeholder_maps, adaptive_threshold = threshold,
                 placeholder_scoring = True\<rparr>
      | Some [] \<Rightarrow> \<lparr>scoring_maps = placeholder_maps, adaptive_threshold = threshold,
                    placeholder_scoring = True\<rparr>
      | Some (m # ms) \<Rightarrow> \<lparr>scoring_maps = m # ms, adaptive_threshold = threshold,
                          placeholder_scoring = False\<rparr>)"

subsection \<open>True division of integers\<close>

text \<open>Rounding to the nearest integer, a tie going to the even neighbour.\<close>

definition round_half_even :: "rat \<Rightarrow> int" where
  "round_half_even x =
     (if x - of_int \<lfloor>x\<rfloor> < 1 / 2 then \<lfloor>x\<rfloor>
      else if x - of_int \<lfloor>x\<rfloor> > 1 / 2 then \<lfloor>x\<rfloor> + 1
      else if even \<lfloor>x\<rfloor> then \<lfloor>x\<rfloor> else \<lfloor>x\<rfloor> + 1)"

text \<open>
  For \<open>a > 0\<close>, the exponent \<open>e\<close> with \<open>2 ^ e \<le> a < 2 ^ (e + 1)\<close>, computed from the bit
  lengths of numerator and denominator.
\<close>

definition binary_exponent :: "rat \<Rightarrow> int" where
  "binary_exponent a =
     (let p = fst (quotient_of a); q = snd (quotient_of a); d = bitlen p - bitlen q
      in if of_int q * 2 powi d \<le> (of_int p :: rat) then d else d - 1)"

text \<open>
  The binary64 number nearest to \<open>x\<close>, were the exponent range unbounded above: a
  significand of 53 bits, the least exponent \<open>- 1022\<close> (below it the spacing stays
  \<open>2 ^ (- 1074)\<close>), ties to even.
\<close>

definition nearest_double :: "rat \<Rightarrow> rat" where
  "nearest_double x =
     (if x = 0 then 0
      else sgn x * of_int (round_half_even (\<bar>x\<bar> / 2 powi (max (binary_exponent \<bar>x\<bar>) (- 1022) - 52)))
             * 2 powi (max (binary_exponent \<bar>x\<bar>) (- 1022) - 52))"

text \<open>
  \<open>a / b\<close> on two \<open>int\<close>s: CPython rounds the exact quotient correctly and raises
  \<open>OverflowError\<close> when the rounded value is not a finite double.
\<close>

definition py_truediv :: "int \<Rightarrow> int \<Rightarrow> py_error + rat" where
  "py_truediv a b =
     (if b = 0 then Inl ZeroDivisionError
      else if \<bar>nearest_double (of_int a / of_int b)\<bar> \<ge> 2 ^ 1024 then Inl OverflowError
      else Inr (nearest_double (of_int a / of_int b)))"

subsection \<open>\<open>determine_module2_difficulty\<close> and \<open>calculate_scaled_score\<close>\<close>

definition determine_module2_difficulty ::
    "analyzer \<Rightarrow> int \<Rightarrow> int \<Rightarrow> py_error + difficulty \<times> event list" where
  "determine_module2_difficulty self m1_correct m1_total =
     (if m1_total = 0
      then Inr (Easy, [Enter_determine_module2_difficulty m1_correct m1_total, Print_default_easy])
      else
        (case py_truediv m1_correct m1_total of
           Inl e \<Rightarrow> Inl e
         | Inr ratio \<Rightarrow>
             Inr (if ratio \<ge> adaptive_threshold self then Hard else Easy,
                  [Enter_determine_module2_difficulty m1_correct m1_total])))"

text \<open>\<open>score[module2_difficulty]\<close>\<close>

definition tier_value :: "score_entry \<Rightarrow> difficulty \<Rightarrow> int" where
  "tier_value score d = (case d of Hard \<Rightarrow> hard score | Easy \<Rightarrow> easy score)"

text \<open>
  \<open>next((item['map'] for item in self.scoring_maps if item['key'] == subject), None)\<close>:
  the map of the first item with that key.
\<close>

definition map_data_of :: "analyzer \<Rightarrow> string \<Rightarrow> score_entry list option" where
  "map_data_of self subject =
     map_option map_entries (find (\<lambda>item. key item = subject) (scoring_maps self))"

definition calculate_scaled_score ::
    "analyzer \<Rightarrow> string \<Rightarrow> int \<Rightarrow> difficulty \<Rightarrow> int \<times> event list" where
  "calculate_scaled_score self subject raw_sc d =
     (case map_data_of self subject of
        None \<Rightarrow> (200, [Enter_calculate_scaled_score subject raw_sc d, Print_no_scoring_map subject])
      | Some [] \<Rightarrow> (200, [Enter_calculate_scaled_score subject raw_sc d, Print_no_scoring_map subject])
      | Some (e # es) \<Rightarrow>
          (case find (\<lambda>score. raw score = raw_sc) (e # es) of
             Some score \<Rightarrow> (tier_value score d, [Enter_calculate_scaled_score subject raw_sc d])
           | None \<Rightarrow> (200, [Enter_calculate_scaled_score subject raw_sc d])))"

subsection \<open>The partition of the responses, shared by both analyses\<close>

definition subjects :: "string list" where
  "subjects = [''Math'', ''Reading and Writing'']"

definition subject_data :: "response list \<Rightarrow> string \<Rightarrow> response list" where
  "subject_data student_data subject = filter (\<lambda>q. subject_name q = Some subject) student_data"

definition module1_data :: "response list \<Rightarrow> response list" where
  "module1_data sd = filter (\<lambda>q. section_tag q = Some ''Static'') sd"

definition module2_labels :: "string list" where
  "module2_labels = [''Hard'', ''Adaptive'', ''Module 2'', ''AdaptiveHard'']"

definition in_module2 :: "response \<Rightarrow> bool" where
  "in_module2 q = (case section_tag q of None \<Rightarrow> False | Some s \<Rightarrow> List.member module2_labels s)"

definition module2_data :: "response list \<Rightarrow> response list" where
  "module2_data sd = filter in_module2 sd"

text \<open>\<open>sum(1 for q in data if q.get('correct'))\<close>\<close>

definition count_correct :: "response list \<Rightarrow> int" where
  "count_correct qs = int (length (filter correct qs))"

text \<open>\<open>q.get('question_id', q.get('_id'))\<close>\<close>

definition id_of :: "response \<Rightarrow> string option" where
  "id_of q = (case question_id q of Some i \<Rightarrow> Some i | None \<Rightarrow> rec_id q)"

text \<open>\<open>q.get('time_spent', 0) / 1000\<close>\<close>

definition seconds_of :: "response \<Rightarrow> rat" where
  "seconds_of q = of_int (case time_spent q of Some t \<Rightarrow> t | None \<Rightarrow> 0) / 1000"

subsection \<open>Topic statistics: the \<open>defaultdict\<close> of \<open>analyze_performance\<close>\<close>

definition empty_stats :: topic_stats where
  "empty_stats = \<lparr>topic_correct = 0, topic_total = 0, topic_time_spent_s = []\<rparr>"

text \<open>The three updates the loop body makes to \<open>topics[topic]\<close>.\<close>

definition record_response :: "response \<Rightarrow> topic_stats \<Rightarrow> topic_stats" where
  "record_response q st =
     \<lparr>topic_correct = (if correct q then topic_correct st + 1 else topic_correct st),
      topic_total = topic_total st + 1,
      topic_time_spent_s = topic_time_spent_s st @ [seconds_of q]\<rparr>"

text \<open>
  \<open>topics[topic]\<close> on a \<open>defaultdict\<close>: an absent key is inserted last, with the
  default value, before it is updated.
\<close>

fun touch_topic ::
    "string \<Rightarrow> response \<Rightarrow> (string \<times> topic_stats) list \<Rightarrow> (string \<times> topic_stats) list" where
  "touch_topic t q [] = [(t, record_response q empty_stats)]"
| "touch_topic t q ((k, st) # rest) =
     (if k = t then (k, record_response q st) # rest else (k, st) # touch_topic t q rest)"

text \<open>\<open>if topic:\<close> is false for an absent name and for the empty string.\<close>

definition add_topic :: "(string \<times> topic_stats) list \<Rightarrow> response \<Rightarrow> (string \<times> topic_stats) list" where
  "add_topic topics q =
     (case topic_name q of
        None \<Rightarrow> topics
      | Some t \<Rightarrow> if t = [] then topics else touch_topic t q topics)"

definition topics_of :: "response list \<Rightarrow> (string \<times> topic_stats) list" where
  "topics_of sd = foldl add_topic [] sd"

definition topic_accuracy :: "topic_stats \<Rightarrow> rat" where
  "topic_accuracy st = of_int (topic_correct st) / of_int (topic_total st)"

definition is_weak :: "string \<times> topic_stats \<Rightarrow> bool" where
  "is_weak kv = (topic_total (snd kv) > 0 \<and> topic_accuracy (snd kv) < 1 / 2)"

definition weak_topics_of :: "(string \<times> topic_stats) list \<Rightarrow> (string \<times> rat) list" where
  "weak_topics_of topics =
     map (\<lambda>kv. (fst kv, topic_accuracy (snd kv) * 100)) (filter is_weak topics)"

definition topic_clusters_of :: "(string \<times> topic_stats) list \<Rightarrow> (string \<times> rat \<times> rat) list" where
  "topic_clusters_of topics =
     map (\<lambda>kv. (fst kv, topic_accuracy (snd kv) * 100,
                 sum_list (topic_time_spent_s (snd kv)) / of_nat (length (topic_time_spent_s (snd kv)))))
         (filter (\<lambda>kv. topic_total (snd kv) > 0) topics)"

subsection \<open>\<open>analyze_performance\<close>\<close>

definition slow_entry :: "response \<Rightarrow> slow_question" where
  "slow_entry q = \<lparr>slow_question_id = id_of q, slow_topic = topic_name q, time_spent_s = seconds_of q\<rparr>"

definition slow_questions_of :: "response list \<Rightarrow> slow_question list" where
  "slow_questions_of sd = map slow_entry (filter (\<lambda>q. seconds_of q > 60) sd)"

definition zeroed_performance :: performance where
  "zeroed_performance =
     \<lparr>Module_1 = \<lparr>correct1 = 0, total1 = 0, accuracy1 = 0\<rparr>,
      Module_2 = \<lparr>correct2 = 0, total2 = 0, difficulty2 = Easy\<rparr>,
      raw_score = 0, scaled_score = 200, slow_questions = [], weak_topics = [],
      topic_clusters = []\<rparr>"

text \<open>The body of the loop over the subjects.\<close>

definition analyze_subject ::
    "analyzer \<Rightarrow> response list \<Rightarrow> string \<Rightarrow> string \<Rightarrow> py_error + performance \<times> event list" where
  "analyze_subject self student_data source_file subject =
     (let sd = subject_data student_data subject;
          m1_correct = count_correct (module1_data sd);
          m1_total = int (length (module1_data sd));
          m2_correct = count_correct (module2_data sd);
          m2_total = int (length (module2_data sd));
          raw_sc = m1_correct + m2_correct
      in if m1_total = 0
         then Inr (zeroed_performance, [Print_skipping_scoring subject source_file])
         else
           (case determine_module2_difficulty self m1_correct m1_total of
              Inl e \<Rightarrow> Inl e
            | Inr dif \<Rightarrow>
               (let sc = calculate_scaled_score self subject raw_sc (fst dif)
                in Inr
                  (\<lparr>Module_1 = \<lparr>correct1 = m1_correct, total1 = m1_total,
                              accuracy1 = (if m1_total > 0 then of_int m1_correct / of_int m1_total else 0)\<rparr>,
                    Module_2 = \<lparr>correct2 = m2_correct, total2 = m2_total, difficulty2 = fst dif\<rparr>,
                    raw_score = raw_sc,
                    scaled_score = fst sc,
                    slow_questions = slow_questions_of sd,
                    weak_topics = weak_topics_of (topics_of sd),
                    topic_clusters = topic_clusters_of (topics_of sd)\<rparr>,
                   (if m2_total = 0 then [Print_module1_only subject source_file] else [])
                     @ snd dif @ snd sc))))"

text \<open>
  The loop over the subjects, for a loop body that may raise: the results are collected
  per subject in the order of the loop, the traces are joined, and the first raise ends
  the loop.
\<close>

fun for_subjects ::
    "(string \<Rightarrow> py_error + 'a \<times> event list) \<Rightarrow> string list
      \<Rightarrow> py_error + (string \<times> 'a) list \<times> event list" where
  "for_subjects body [] = Inr ([], [])"
| "for_subjects body (subject # rest) =
     (case body subject of
        Inl e \<Rightarrow> Inl e
      | Inr r \<Rightarrow>
          (case for_subjects body rest of
             Inl e \<Rightarrow> Inl e
           | Inr rs \<Rightarrow> Inr ((subject, fst r) # fst rs, snd r @ snd rs)))"

definition analyze_performance ::
    "analyzer \<Rightarrow> response list \<Rightarrow> string
      \<Rightarrow> py_error + (string \<times> performance) list \<times> event list" where
  "analyze_performance self student_data source_file =
     for_subjects (analyze_subject self student_data source_file) subjects"

subsection \<open>\<open>what_if_analysis\<close>\<close>

text \<open>The slice \<open>xs[:n]\<close>; a negative \<open>n\<close> counts from the end.\<close>

definition slice_to :: "'a list \<Rightarrow> int \<Rightarrow> 'a list" where
  "slice_to xs n = (if n \<ge> 0 then take (nat n) xs else take (nat (int (length xs) + n)) xs)"

text \<open>\<open>q.get('compleixty', q.get('complexity', 'Unknown'))\<close>\<close>

definition complexity_of :: "response \<Rightarrow> string" where
  "complexity_of q =
     (case compleixty q of
        Some c \<Rightarrow> c
      | None \<Rightarrow> (case complexity q of Some c \<Rightarrow> c | None \<Rightarrow> ''Unknown''))"

definition impact_entry :: "response \<Rightarrow> high_impact_question" where
  "impact_entry q =
     \<lparr>impact_question_id = id_of q, impact_topic = topic_name q, impact_complexity = complexity_of q\<rparr>"

definition what_if_subject ::
    "analyzer \<Rightarrow> response list \<Rightarrow> string \<Rightarrow> int \<Rightarrow> string
      \<Rightarrow> py_error + what_if_result \<times> event list" where
  "what_if_subject self student_data source_file additional_correct subject =
     (let sd = subject_data student_data subject;
          m1_correct = count_correct (module1_data sd);
          m1_total = int (length (module1_data sd));
          m2_correct = count_correct (module2_data sd);
          current_raw_score = m1_correct + m2_correct
      in case determine_module2_difficulty self m1_correct m1_total of
           Inl e \<Rightarrow> Inl e
         | Inr current_difficulty \<Rightarrow>
            (let cur = calculate_scaled_score self subject current_raw_score (fst current_difficulty);
                 new_module1_correct = min (m1_correct + additional_correct) m1_total
             in case determine_module2_difficulty self new_module1_correct m1_total of
                  Inl e \<Rightarrow> Inl e
                | Inr new_difficulty \<Rightarrow>
                   (let new_raw_score = new_module1_correct + m2_correct;
                        new = calculate_scaled_score self subject new_raw_score (fst new_difficulty);
                        high_impact = filter (\<lambda>q. \<not> correct q) (module1_data sd)
                    in Inr
                      (\<lparr>current_score = fst cur,
                         new_score = fst new,
                         score_gain = fst new - fst cur,
                         high_impact_questions =
                           map impact_entry (slice_to high_impact additional_correct)\<rparr>,
                       snd current_difficulty @ snd cur @ snd new_difficulty @ snd new))))"

definition what_if_analysis ::
    "analyzer \<Rightarrow> response list \<Rightarrow> string \<Rightarrow> int
      \<Rightarrow> py_error + (string \<times> what_if_result) list \<times> event list" where
  "what_if_analysis self student_data source_file additional_correct =
     for_subjects (what_if_subject self student_data source_file additional_correct) subjects"

subsection \<open>The script: reporting the what-if results of one file\<close>



subsection \<open>\<open>calculate_prediction_accuracy\<close> and \<open>find_optimal_threshold\<close>\<close>

text \<open>One turn of the loop over the samples; the state is \<open>(correct_predictions, total_valid)\<close>.\<close>

definition accuracy_step :: "rat \<Rightarrow> int \<times> int \<Rightarrow> threshold_sample \<Rightarrow> int \<times> int" where
  "accuracy_step threshold acc student =
     (if module1_total student = 0 then acc
      else
        (let predicted = (if of_int (module1_correct student) / of_int (module1_total student) \<ge> threshold
                          then Hard else Easy);
             actual = (if got_hard_module2 student then Hard else Easy)
         in (if predicted = actual then fst acc + 1 else fst acc, snd acc + 1)))"

definition calculate_prediction_accuracy :: "threshold_sample list \<Rightarrow> rat \<Rightarrow> rat" where
  "calculate_prediction_accuracy data threshold =
     (let acc = foldl (accuracy_step threshold) (0, 0) data
      in if snd acc \<noteq> 0 then of_int (fst acc) / of_int (snd acc) else 0)"





subsection \<open>Sample inputs\<close>

text \<open>A response with every field the analyses read, and no complexity label.\<close>

definition mk_response :: "string \<Rightarrow> string \<Rightarrow> string \<Rightarrow> string \<Rightarrow> bool \<Rightarrow> int \<Rightarrow> response" where
  "mk_response qid subject sec topic ok ms =
     \<lparr>question_id = Some qid, rec_id = None, subject_name = Some subject, section_tag = Some sec,
      topic_name = Some topic, correct = ok, time_spent = Some ms,
      compleixty = None, complexity = None\<rparr>"

text \<open>
  The analyzer of the script when no scoring file is found: placeholder maps, and the
  threshold the float literal \<open>0.6\<close> denotes.
\<close>

definition placeholder_analyzer :: analyzer where
  "placeholder_analyzer = init None (nearest_double (3 / 5))"


text \<open>
  A small record set: three Module 1 and one Module 2 Math responses, one Math response
  whose section label belongs to neither module, and one Reading and Writing response.
\<close>

definition sample_data :: "response list" where
  "sample_data =
     [mk_response ''q1'' ''Math'' ''Static'' ''Algebra'' True 30000,
      mk_response ''q2'' ''Math'' ''Static'' ''Algebra'' False 61000,
      mk_response ''q3'' ''Math'' ''Static'' ''Geometry'' False 60000,
      mk_response ''q4'' ''Math'' ''Hard'' ''Geometry'' True 45000,
      mk_response ''q5'' ''Math'' ''Review'' ''Geometry'' False 90000,
      mk_response ''q6'' ''Reading and Writing'' ''Static'' ''Grammar'' True 1000]"

text \<open>
  Four incorrect Module 1 Math responses that differ in their labels: both spellings of
  the complexity field, the correct spelling only, neither, and a response identified
  by \<open>_id\<close> only.
\<close>

definition labelled_data :: "response list" where
  "labelled_data =
     [\<lparr>question_id = Some ''q1'', rec_id = Some ''r1'', subject_name = Some ''Math'',
        section_tag = Some ''Static'', topic_name = Some ''Algebra'', correct = False,
        time_spent = Some 1000, compleixty = Some ''hard'', complexity = Some ''easy''\<rparr>,
      \<lparr>question_id = Some ''q2'', rec_id = None, subject_name = Some ''Math'',
        section_tag = Some ''Static'', topic_name = None, correct = False,
        time_spent = None, compleixty = None, complexity = Some ''medium''\<rparr>,
      \<lparr>question_id = Some ''q3'', rec_id = None, subject_name = Some ''Math'',
        section_tag = Some ''Static'', topic_name = Some ''Geometry'', correct = False,
        time_spent = Some 2000, compleixty = None, complexity = None\<rparr>,
      \<lparr>question_id = None, rec_id = Some ''r4'', subject_name = Some ''Math'',
        section_tag = Some ''Static'', topic_name = Some ''Geometry'', correct = False,
        time_spent = Some 3000, compleixty = Some ''easy'', complexity = None\<rparr>]"

subsection \<open>Auxiliary notions for the proofs\<close>

text \<open>
  The classification of a quotient that does not overflow, and the trace of the
  classifier's call.
\<close>

definition difficulty_of :: "analyzer \<Rightarrow> int \<Rightarrow> int \<Rightarrow> difficulty" where
  "difficulty_of self c t =
     (if t = 0 then Easy
      else if nearest_double (of_int c / of_int t) \<ge> adaptive_threshold self then Hard else Easy)"

definition classifier_trace :: "int \<Rightarrow> int \<Rightarrow> event list" where
  "classifier_trace c t =
     (if t = 0 then [Enter_determine_module2_difficulty c t, Print_default_easy]
      else [Enter_determine_module2_difficulty c t])"



text \<open>A sample is predicted correctly at a threshold: the comparison of the accuracy loop.\<close>

definition predicts :: "rat \<Rightarrow> threshold_sample \<Rightarrow> bool" where
  "predicts threshold s =
     ((of_int (module1_correct s) / of_int (module1_total s) \<ge> threshold) = got_hard_module2 s)"

section \<open>Properties\<close>

subsection \<open>Rounding to an integer\<close>

lemma round_half_even_cases:
  "round_half_even x = \<lfloor>x\<rfloor> \<and> x - of_int \<lfloor>x\<rfloor> \<le> 1 / 2
   \<or> round_half_even x = \<lfloor>x\<rfloor> + 1 \<and> 1 / 2 \<le> x - of_int \<lfloor>x\<rfloor>"
  unfolding round_half_even_def by (simp add: not_less)

lemma round_half_even_bounds:
  "of_int (round_half_even x) \<le> x + 1 / 2" "x - 1 / 2 \<le> of_int (round_half_even x)"
proof -
  have f: "of_int \<lfloor>x\<rfloor> \<le> x" "x < of_int \<lfloor>x\<rfloor> + 1"
    by linarith+
  have "of_int (round_half_even x) \<le> x + 1 / 2 \<and> x - 1 / 2 \<le> of_int (round_half_even x)"
    using round_half_even_cases [of x]
  proof (elim disjE conjE)
    assume e: "round_half_even x = \<lfloor>x\<rfloor>" and h: "x - of_int \<lfloor>x\<rfloor> \<le> 1 / 2"
    from f h show ?thesis unfolding e by linarith
  next
    assume e: "round_half_even x = \<lfloor>x\<rfloor> + 1" and h: "1 / 2 \<le> x - of_int \<lfloor>x\<rfloor>"
    have "(of_int (\<lfloor>x\<rfloor> + 1) :: rat) = of_int \<lfloor>x\<rfloor> + 1" by simp
    with f h show ?thesis unfolding e by linarith
  qed
  then show "of_int (round_half_even x) \<le> x + 1 / 2" "x - 1 / 2 \<le> of_int (round_half_even x)"
    by blast+
qed

lemma round_half_even_eqI:
  assumes "\<bar>x - of_int m\<bar> < 1 / 2"
  shows "round_half_even x = m"
proof -
  have "of_int (round_half_even x) \<le> x + 1 / 2" "x - 1 / 2 \<le> of_int (round_half_even x)"
    by (rule round_half_even_bounds)+
  with assms have "\<bar>(of_int (round_half_even x) :: rat) - of_int m\<bar> < 1"
    by linarith
  then have "\<bar>round_half_even x - m\<bar> < 1"
    by (metis of_int_diff of_int_abs of_int_less_1_iff)
  then show ?thesis by simp
qed

lemma round_half_even_of_int [simp]: "round_half_even (of_int m) = m"
  by (rule round_half_even_eqI) simp

lemma round_half_even_mono:
  assumes "x \<le> y"
  shows "round_half_even x \<le> round_half_even y"
proof (cases "\<lfloor>x\<rfloor> = \<lfloor>y\<rfloor>")
  case True
  with assms show ?thesis
    by (auto simp: round_half_even_def)
next
  case False
  with assms have "\<lfloor>x\<rfloor> + 1 \<le> \<lfloor>y\<rfloor>"
    using floor_mono [OF assms] by linarith
  moreover have "round_half_even x \<le> \<lfloor>x\<rfloor> + 1"
    by (auto simp: round_half_even_def)
  moreover have "\<lfloor>y\<rfloor> \<le> round_half_even y"
    by (auto simp: round_half_even_def)
  ultimately show ?thesis by linarith
qed

subsection \<open>The binary exponent\<close>

lemma two_powi_less_imp:
  assumes "(2::rat) powi m < 2 powi n"
  shows "m < n"
proof (rule ccontr)
  assume "\<not> m < n"
  then have "n \<le> m" by simp
  then have "(2::rat) powi n \<le> 2 powi m"
    by (intro power_int_increasing) simp_all
  with assms show False by simp
qed

lemma bitlen_bounds_rat:
  assumes "0 < n"
  shows "2 powi (bitlen n - 1) \<le> (of_int n :: rat)" "(of_int n :: rat) < 2 powi bitlen n"
proof -
  from assms have b: "2 ^ nat (bitlen n - 1) \<le> n" "n < 2 ^ nat (bitlen n)"
    using bitlen_bounds [OF assms] by blast+
  from assms have pos: "1 \<le> bitlen n"
    using bitlen_eq_zero_iff [of n] bitlen_nonneg [of n] by linarith
  have "(2::rat) powi (bitlen n - 1) = 2 ^ nat (bitlen n - 1)"
    using pos by (simp add: power_int_nonneg_exp)
  also have "\<dots> = of_int (2 ^ nat (bitlen n - 1))" by simp
  also have "\<dots> \<le> of_int n" using b(1) by (simp only: of_int_le_iff)
  finally show "2 powi (bitlen n - 1) \<le> (of_int n :: rat)" .
  have "(of_int n :: rat) < of_int (2 ^ nat (bitlen n))"
    using b(2) by (simp only: of_int_less_iff)
  also have "\<dots> = 2 ^ nat (bitlen n)" by simp
  also have "\<dots> = 2 powi bitlen n"
    using pos by (simp add: power_int_nonneg_exp)
  finally show "(of_int n :: rat) < 2 powi bitlen n" .
qed

lemma binary_exponent_bounds:
  assumes "0 < a"
  shows "2 powi binary_exponent a \<le> a \<and> a < 2 powi (binary_exponent a + 1)"
proof -
  obtain p q where pq: "quotient_of a = (p, q)" by (cases "quotient_of a")
  then have q: "0 < q" and a: "a = of_int p / of_int q"
    by (auto dest: quotient_of_denom_pos quotient_of_div)
  with assms have p: "0 < p"
    by (simp add: zero_less_divide_iff)
  let ?d = "bitlen p - bitlen q"
  note bp = bitlen_bounds_rat [OF p] and bq = bitlen_bounds_rat [OF q]
  have qpos: "(0::rat) < of_int q" using q by simp
  have split1: "(2::rat) powi bitlen p = 2 powi (?d + 1) * 2 powi (bitlen q - 1)"
    by (simp add: power_int_add [symmetric])
  have split2: "(2::rat) powi (bitlen p - 1) = 2 powi (?d - 1) * 2 powi bitlen q"
    by (simp add: power_int_add [symmetric])
  show ?thesis
  proof (cases "of_int q * 2 powi ?d \<le> (of_int p :: rat)")
    case True
    then have e: "binary_exponent a = ?d"
      by (simp add: binary_exponent_def pq)
    from True qpos have "2 powi ?d \<le> a"
      unfolding a by (simp add: pos_le_divide_eq mult.commute)
    moreover have "of_int p < 2 powi (?d + 1) * (of_int q :: rat)"
    proof -
      have "(of_int p :: rat) < 2 powi (?d + 1) * 2 powi (bitlen q - 1)"
        using bp(2) by (simp only: split1)
      also have "\<dots> \<le> 2 powi (?d + 1) * of_int q"
        using bq(1) by (intro mult_left_mono) simp_all
      finally show ?thesis .
    qed
    then have "a < 2 powi (?d + 1)"
      unfolding a using qpos by (simp add: pos_divide_less_eq)
    ultimately show ?thesis
      unfolding e by simp
  next
    case False
    then have e: "binary_exponent a = ?d - 1"
      by (simp add: binary_exponent_def pq)
    from False qpos have "a < 2 powi ?d"
      unfolding a by (simp add: pos_divide_less_eq mult.commute not_le)
    moreover have "2 powi (?d - 1) * (of_int q :: rat) \<le> of_int p"
    proof -
      have "2 powi (?d - 1) * (of_int q :: rat) \<le> 2 powi (?d - 1) * 2 powi bitlen q"
        using bq(2) by (intro mult_left_mono) simp_all
      also have "\<dots> \<le> of_int p"
        using bp(1) by (simp only: split2)
      finally show ?thesis .
    qed
    then have "2 powi (?d - 1) \<le> a"
      unfolding a using qpos by (simp add: pos_le_divide_eq)
    ultimately show ?thesis
      unfolding e by simp
  qed
qed

lemma binary_exponent_eqI:
  assumes "2 powi e \<le> a" "a < 2 powi (e + 1)"
  shows "binary_exponent a = e"
proof -
  have "(0::rat) < 2 powi e" by simp
  with assms(1) have pos: "0 < a" by linarith
  from binary_exponent_bounds [OF pos]
  have b: "2 powi binary_exponent a \<le> a" "a < 2 powi (binary_exponent a + 1)"
    by blast+
  have "(2::rat) powi e < 2 powi (binary_exponent a + 1)"
    using assms(1) b(2) by linarith
  then have "e < binary_exponent a + 1"
    by (rule two_powi_less_imp)
  moreover have "(2::rat) powi binary_exponent a < 2 powi (e + 1)"
    using assms(2) b(1) by linarith
  then have "binary_exponent a < e + 1"
    by (rule two_powi_less_imp)
  ultimately show ?thesis by linarith
qed


subsection \<open>Rounding to a double\<close>

lemma two_powi_le_imp:
  assumes "(2::rat) powi m \<le> 2 powi n"
  shows "m \<le> n"
proof (rule ccontr)
  assume "\<not> m \<le> n"
  then have "n < m" by simp
  then have "(2::rat) powi n < 2 powi m"
    by (intro power_int_strict_increasing) simp_all
  with assms show False by simp
qed

lemma two_powi_split:
  "(2::rat) powi (k + (n - k)) = 2 powi k * 2 powi (n - k)"
  by (rule power_int_add) simp

lemma two_powi_shift:
  "(2::rat) powi n = 2 powi k * 2 powi (n - k)"
proof -
  have "n = k + (n - k)" by simp
  then have "(2::rat) powi n = 2 powi (k + (n - k))" by (rule arg_cong)
  then show ?thesis by (simp only: two_powi_split)
qed

lemma nearest_double_pos:
  assumes "0 < x"
  shows "nearest_double x =
     of_int (round_half_even (x / 2 powi (max (binary_exponent x) (- 1022) - 52)))
       * 2 powi (max (binary_exponent x) (- 1022) - 52)"
  using assms by (simp add: nearest_double_def)

lemma nearest_double_eqI:
  assumes "2 powi e \<le> x" "x < 2 powi (e + 1)"
    and "\<bar>x / 2 powi (max e (- 1022) - 52) - of_int m\<bar> < 1 / 2"
  shows "nearest_double x = of_int m * 2 powi (max e (- 1022) - 52)"
proof -
  have "(0::rat) < 2 powi e" by simp
  with assms(1) have pos: "0 < x" by linarith
  have e: "binary_exponent x = e"
    using assms(1) assms(2) by (rule binary_exponent_eqI)
  have "round_half_even (x / 2 powi (max e (- 1022) - 52)) = m"
    using assms(3) by (rule round_half_even_eqI)
  then show ?thesis
    by (simp add: nearest_double_pos [OF pos] e)
qed

lemma nearest_double_minus: "nearest_double (- x) = - nearest_double x"
  by (simp add: nearest_double_def sgn_minus)

lemma round_half_even_nonneg: "0 \<le> x \<Longrightarrow> 0 \<le> round_half_even x"
  using round_half_even_mono [of 0 x] round_half_even_of_int [of 0] by simp

lemma nearest_double_nonneg:
  assumes "0 \<le> x"
  shows "0 \<le> nearest_double x"
proof (cases "x = 0")
  case True
  then show ?thesis by (simp add: nearest_double_def)
next
  case False
  with assms have pos: "0 < x" by simp
  have "0 \<le> round_half_even (x / 2 powi (max (binary_exponent x) (- 1022) - 52))"
    using pos by (intro round_half_even_nonneg) simp
  then show ?thesis
    unfolding nearest_double_pos [OF pos] by simp
qed

text \<open>A positive number in the binade of exponent \<open>e\<close> rounds into the closed binade.\<close>

lemma nearest_double_upper:
  assumes "0 < x"
  shows "nearest_double x \<le> 2 powi (max (binary_exponent x) (- 1022) + 1)"
proof -
  let ?M = "max (binary_exponent x) (- 1022)"
  let ?q = "(2::rat) powi (?M - 52)"
  have q: "0 < ?q" by simp
  from binary_exponent_bounds [OF assms] have "x < 2 powi (binary_exponent x + 1)" by blast
  also have "\<dots> \<le> 2 powi (?M + 1)"
    by (intro power_int_increasing) simp_all
  also have "\<dots> = 2 powi 53 * ?q"
    using two_powi_shift [of "?M + 1" 53] by simp
  finally have "x / ?q \<le> 2 powi 53"
    using q by (simp add: pos_divide_le_eq)
  then have "x / ?q \<le> of_int (2 ^ 53)" by simp
  then have "round_half_even (x / ?q) \<le> round_half_even (of_int (2 ^ 53))"
    by (rule round_half_even_mono)
  then have "round_half_even (x / ?q) \<le> 2 ^ 53"
    by (simp only: round_half_even_of_int)
  then have "(of_int (round_half_even (x / ?q)) :: rat) \<le> of_int (2 ^ 53)"
    by (simp only: of_int_le_iff)
  then have "of_int (round_half_even (x / ?q)) * ?q \<le> of_int (2 ^ 53) * ?q"
    using q by (intro mult_right_mono) simp_all
  also have "of_int (2 ^ 53) * ?q = 2 powi (?M + 1)"
    using two_powi_shift [of "?M + 1" 53] by simp
  finally show ?thesis
    unfolding nearest_double_pos [OF assms] .
qed

lemma nearest_double_lower:
  assumes "0 < x" and "- 1022 \<le> binary_exponent x"
  shows "2 powi binary_exponent x \<le> nearest_double x"
proof -
  let ?e = "binary_exponent x"
  let ?q = "(2::rat) powi (?e - 52)"
  have M: "max ?e (- 1022) = ?e" using assms(2) by simp
  have q: "0 < ?q" by simp
  from binary_exponent_bounds [OF assms(1)] have "2 powi ?e \<le> x" by blast
  moreover have "(2::rat) powi ?e = 2 powi 52 * ?q"
    by (rule two_powi_shift)
  ultimately have "2 powi 52 \<le> x / ?q"
    using q by (simp add: pos_le_divide_eq)
  then have "of_int (2 ^ 52) \<le> x / ?q" by simp
  then have "round_half_even (of_int (2 ^ 52)) \<le> round_half_even (x / ?q)"
    by (rule round_half_even_mono)
  then have "2 ^ 52 \<le> round_half_even (x / ?q)"
    by (simp only: round_half_even_of_int)
  then have "(of_int (2 ^ 52) :: rat) \<le> of_int (round_half_even (x / ?q))"
    by (simp only: of_int_le_iff)
  then have "of_int (2 ^ 52) * ?q \<le> of_int (round_half_even (x / ?q)) * ?q"
    using q by (intro mult_right_mono) simp_all
  moreover have "of_int (2 ^ 52) * ?q = 2 powi ?e"
    using two_powi_shift [of ?e 52] by simp
  ultimately have "2 powi ?e \<le> of_int (round_half_even (x / ?q)) * ?q"
    by linarith
  then show ?thesis
    unfolding nearest_double_pos [OF assms(1)] M .
qed

lemma nearest_double_mono_pos:
  assumes "0 < x" "x \<le> y"
  shows "nearest_double x \<le> nearest_double y"
proof -
  from assms have ypos: "0 < y" by simp
  let ?ex = "binary_exponent x" and ?ey = "binary_exponent y"
  let ?Mx = "max ?ex (- 1022)" and ?My = "max ?ey (- 1022)"
  from binary_exponent_bounds [OF assms(1)] binary_exponent_bounds [OF ypos] assms(2)
  have "(2::rat) powi ?ex < 2 powi (?ey + 1)" by linarith
  then have "?ex < ?ey + 1" by (rule two_powi_less_imp)
  then have le: "?Mx \<le> ?My" by simp
  show ?thesis
  proof (cases "?Mx = ?My")
    case True
    let ?q = "(2::rat) powi (?My - 52)"
    have q: "0 < ?q" by simp
    from assms(2) q have "x / ?q \<le> y / ?q"
      by (simp add: divide_right_mono)
    then have "round_half_even (x / ?q) \<le> round_half_even (y / ?q)"
      by (rule round_half_even_mono)
    then have "(of_int (round_half_even (x / ?q)) :: rat) \<le> of_int (round_half_even (y / ?q))"
      by (simp only: of_int_le_iff)
    then have "of_int (round_half_even (x / ?q)) * ?q \<le> of_int (round_half_even (y / ?q)) * ?q"
      using q by (intro mult_right_mono) simp_all
    then show ?thesis
      unfolding nearest_double_pos [OF assms(1)] nearest_double_pos [OF ypos] True .
  next
    case False
    from le False have lt: "?Mx < ?My" by (rule le_neq_trans)
    have "- 1022 \<le> ?Mx" by simp
    with lt have "- 1022 < ?My" by linarith
    then have ey: "- 1022 \<le> ?ey" "?My = ?ey"
      by (simp_all add: max_def split: if_splits)
    have "nearest_double x \<le> 2 powi (?Mx + 1)"
      using assms(1) by (rule nearest_double_upper)
    also have "\<dots> \<le> 2 powi ?ey"
    proof (intro power_int_increasing)
      from lt ey(2) show "?Mx + 1 \<le> ?ey" by linarith
    qed simp
    also have "\<dots> \<le> nearest_double y"
      using ypos ey(1) by (rule nearest_double_lower)
    finally show ?thesis .
  qed
qed

lemma nearest_double_mono:
  assumes "x \<le> y"
  shows "nearest_double x \<le> nearest_double y"
proof -
  consider "0 < x" | "x \<le> 0" "0 \<le> y" | "y < 0" by linarith
  then show ?thesis
  proof cases
    case 1
    then show ?thesis using assms by (rule nearest_double_mono_pos)
  next
    case 2
    then have "0 \<le> nearest_double (- x)" "0 \<le> nearest_double y"
      by (simp_all add: nearest_double_nonneg)
    then show ?thesis by (simp add: nearest_double_minus)
  next
    case 3
    with assms have "0 < - y" "- y \<le> - x" by simp_all
    then have "nearest_double (- y) \<le> nearest_double (- x)"
      by (rule nearest_double_mono_pos)
    then show ?thesis by (simp add: nearest_double_minus)
  qed
qed

text \<open>Quotients of magnitude at most 1 never overflow.\<close>

lemma nearest_double_small:
  assumes "\<bar>x\<bar> \<le> 1"
  shows "\<bar>nearest_double x\<bar> \<le> 1"
proof -
  have one: "nearest_double 1 = 1"
    using nearest_double_eqI [of 0 1 "2 ^ 52"] by simp
  from assms have "- 1 \<le> x" "x \<le> 1" by linarith+
  then have "nearest_double (- 1) \<le> nearest_double x" "nearest_double x \<le> nearest_double 1"
    by (simp_all only: nearest_double_mono)
  then show ?thesis
    by (simp add: nearest_double_minus one abs_le_iff)
qed

lemma py_truediv_bounded:
  assumes "b \<noteq> 0" "\<bar>a\<bar> \<le> \<bar>b\<bar>"
  shows "py_truediv a b = Inr (nearest_double (of_int a / of_int b))"
proof -
  from assms have "\<bar>(of_int a :: rat) / of_int b\<bar> \<le> 1"
    by (simp add: abs_divide)
  then have "\<bar>nearest_double (of_int a / of_int b)\<bar> \<le> 1"
    by (rule nearest_double_small)
  also have "(1::rat) < 2 ^ 1024" by simp
  finally show ?thesis
    using assms(1) by (simp add: py_truediv_def)
qed

lemma nearest_double_abs: "\<bar>nearest_double x\<bar> = nearest_double \<bar>x\<bar>"
proof (cases "0 \<le> x")
  case True
  then show ?thesis by (simp add: nearest_double_nonneg)
next
  case False
  then have "0 \<le> nearest_double (- x)"
    by (intro nearest_double_nonneg) simp
  with False show ?thesis
    by (simp add: nearest_double_minus abs_if)
qed

lemma nearest_double_one: "nearest_double 1 = 1"
  using nearest_double_eqI [of 0 1 "2 ^ 52"] by simp

lemma nearest_double_half: "nearest_double (1 / 2) = 1 / 2"
  using nearest_double_eqI [of "- 1" "1 / 2" "2 ^ 52"] by simp

lemma nearest_double_2_1024: "nearest_double (2 ^ 1024) = 2 ^ 1024"
  using nearest_double_eqI [of 1024 "2 powi 1024" "2 ^ 52"] by simp

text \<open>The float literal \<open>0.6\<close>.\<close>

lemma double_0_6: "nearest_double (3 / 5) = 5404319552844595 / 9007199254740992"
  using nearest_double_eqI [of "- 1" "3 / 5" 5404319552844595] by simp

lemma double_0_6_fixed:
  "nearest_double (5404319552844595 / 9007199254740992) = 5404319552844595 / 9007199254740992"
  using nearest_double_eqI [of "- 1" "5404319552844595 / 9007199254740992" 5404319552844595]
  by simp

text \<open>A quotient of magnitude \<open>2 ^ 1024\<close> or more overflows.\<close>

lemma py_truediv_overflow:
  assumes "b \<noteq> 0" "2 ^ 1024 \<le> \<bar>(of_int a :: rat) / of_int b\<bar>"
  shows "py_truediv a b = Inl OverflowError"
proof -
  have "nearest_double (2 ^ 1024) \<le> nearest_double \<bar>(of_int a :: rat) / of_int b\<bar>"
    using assms(2) by (rule nearest_double_mono)
  then have "2 ^ 1024 \<le> \<bar>nearest_double ((of_int a :: rat) / of_int b)\<bar>"
    by (simp only: nearest_double_2_1024 nearest_double_abs)
  with assms(1) show ?thesis
    by (simp add: py_truediv_def)
qed

subsection \<open>The classifier on quotients that do not overflow\<close>

lemma determine_module2_difficulty_returns:
  assumes "t = 0 \<or> \<bar>c\<bar> \<le> \<bar>t\<bar>"
  shows "determine_module2_difficulty self c t = Inr (difficulty_of self c t, classifier_trace c t)"
proof (cases "t = 0")
  case True
  then show ?thesis
    by (simp add: determine_module2_difficulty_def difficulty_of_def classifier_trace_def)
next
  case False
  with assms have "py_truediv c t = Inr (nearest_double (of_int c / of_int t))"
    by (intro py_truediv_bounded) simp_all
  with False show ?thesis
    by (simp add: determine_module2_difficulty_def difficulty_of_def classifier_trace_def)
qed

lemma difficulty_of_hard:
  assumes "t \<noteq> 0" "nearest_double (adaptive_threshold self) = adaptive_threshold self"
    and "adaptive_threshold self \<le> of_int c / of_int t"
  shows "difficulty_of self c t = Hard"
proof -
  have "nearest_double (adaptive_threshold self) \<le> nearest_double (of_int c / of_int t)"
    using assms(3) by (rule nearest_double_mono)
  with assms(1) assms(2) show ?thesis
    by (simp add: difficulty_of_def)
qed

lemma difficulty_of_easy:
  assumes "t \<noteq> 0" "of_int c / of_int t \<le> b" "nearest_double b = b" "b < adaptive_threshold self"
  shows "difficulty_of self c t = Easy"
proof -
  have "nearest_double (of_int c / of_int t) \<le> nearest_double b"
    using assms(2) by (rule nearest_double_mono)
  with assms show ?thesis
    by (simp add: difficulty_of_def)
qed

subsection \<open>Helper facts\<close>

lemma map_of_tabulate:
  "map_of (map (\<lambda>k. (k, g k)) ks) k = (if k \<in> set ks then Some (g k) else None)"
  by (induction ks) auto

lemma placeholder_analyzer_maps:
  "scoring_maps placeholder_analyzer = placeholder_maps"
  "adaptive_threshold placeholder_analyzer = 5404319552844595 / 9007199254740992"
  "placeholder_scoring placeholder_analyzer"
  by (simp_all add: placeholder_analyzer_def init_def double_0_6)

lemma placeholder_threshold_double:
  "nearest_double (adaptive_threshold placeholder_analyzer) = adaptive_threshold placeholder_analyzer"
  by (simp only: placeholder_analyzer_maps double_0_6_fixed)

lemma map_data_of_placeholder:
  "map_data_of placeholder_analyzer ''Math'' =
     Some (map (\<lambda>i. \<lparr>raw = int i, hard = 200 + int i * 15, easy = 200 + int i * 10\<rparr>) [0..<45])"
  "map_data_of placeholder_analyzer ''Reading and Writing'' =
     Some (map (\<lambda>i. \<lparr>raw = int i, hard = 200 + int i * 11, easy = 200 + int i * 8\<rparr>) [0..<55])"
  by (simp_all add: map_data_of_def placeholder_analyzer_maps placeholder_maps_def)

lemma find_None_default:
  "find (\<lambda>score. raw score = r) m = None \<Longrightarrow> map_data_of self subject = Some m \<Longrightarrow>
   fst (calculate_scaled_score self subject r d) = 200"
  by (cases m) (simp_all add: calculate_scaled_score_def)

lemma find_append_case:
  "find P (xs @ ys) = (case find P xs of None \<Rightarrow> find P ys | Some x \<Rightarrow> Some x)"
  by (induction xs) auto

text \<open>In a linear table over \<open>0, ..., n - 1\<close> the entry of raw score \<open>r\<close> is found by its index.\<close>

lemma find_linear_table:
  "find (\<lambda>score. raw score = r) (map (\<lambda>i. \<lparr>raw = int i, hard = h i, easy = e i\<rparr>) [0..<n]) =
     (if 0 \<le> r \<and> r < int n then Some \<lparr>raw = r, hard = h (nat r), easy = e (nat r)\<rparr> else None)"
proof (induction n)
  case 0
  then show ?case by simp
next
  case (Suc n)
  show ?case
  proof (cases "0 \<le> r \<and> r < int n")
    case True
    with Suc show ?thesis by (simp add: find_append_case)
  next
    case False
    with Suc show ?thesis by (auto simp: find_append_case)
  qed
qed

lemma linear_table_nonempty:
  "0 < n \<Longrightarrow> \<exists>e es. map f [0..<n] = e # es"
  by (cases n) (simp_all add: upt_conv_Cons del: upt_Suc)

text \<open>The calculator on the placeholder Math map, in closed form.\<close>

lemma placeholder_math_score:
  "fst (calculate_scaled_score placeholder_analyzer ''Math'' r d) =
     (if 0 \<le> r \<and> r < 45 then (case d of Hard \<Rightarrow> 200 + r * 15 | Easy \<Rightarrow> 200 + r * 10) else 200)"
proof -
  let ?m = "map (\<lambda>i. \<lparr>raw = int i, hard = 200 + int i * 15, easy = 200 + int i * 10\<rparr>) [0..<45]"
  have m: "map_data_of placeholder_analyzer ''Math'' = Some ?m"
    by (rule map_data_of_placeholder)
  obtain e es where es: "?m = e # es"
    using linear_table_nonempty [of 45] by fastforce
  have f: "find (\<lambda>score. raw score = r) ?m =
      (if 0 \<le> r \<and> r < 45 then Some \<lparr>raw = r, hard = 200 + int (nat r) * 15, easy = 200 + int (nat r) * 10\<rparr>
       else None)"
    using find_linear_table [of r "\<lambda>i. 200 + int i * 15" "\<lambda>i. 200 + int i * 10" 45] by simp
  show ?thesis
  proof (cases "0 \<le> r \<and> r < 45")
    case True
    with f have "find (\<lambda>score. raw score = r) (e # es)
        = Some \<lparr>raw = r, hard = 200 + r * 15, easy = 200 + r * 10\<rparr>"
      by (simp add: es [symmetric])
    with True show ?thesis
      unfolding calculate_scaled_score_def m es
      by (simp add: tier_value_def split: difficulty.splits)
  next
    case False
    with f have n: "find (\<lambda>score. raw score = r) ?m = None" by simp
    have "fst (calculate_scaled_score placeholder_analyzer ''Math'' r d) = 200"
      by (rule find_None_default [OF n m])
    with False show ?thesis by auto
  qed
qed

subsection \<open>The loop over the subjects\<close>

lemma for_subjects_returns:
  assumes "\<And>s. s \<in> set ss \<Longrightarrow> body s = Inr (f s, g s)"
  shows "for_subjects body ss = Inr (map (\<lambda>s. (s, f s)) ss, concat (map g ss))"
  using assms by (induction ss) simp_all

lemma for_subjects_lookup:
  assumes "for_subjects body ss = Inr (rs, tr)" and "map_of rs s = Some r"
  shows "s \<in> set ss \<and> (\<exists>t. body s = Inr (r, t))"
  using assms
proof (induction ss arbitrary: rs tr)
  case Nil
  then show ?case by simp
next
  case (Cons a ss)
  from Cons.prems(1) obtain r1 t1 rs1 tr1 where a: "body a = Inr (r1, t1)"
      and rest: "for_subjects body ss = Inr (rs1, tr1)" and rs: "rs = (a, r1) # rs1"
    by (auto split: sum.splits)
  show ?case
  proof (cases "s = a")
    case True
    with Cons.prems(2) rs a show ?thesis by auto
  next
    case False
    with Cons.prems(2) rs have "map_of rs1 s = Some r" by simp
    with Cons.IH [OF rest] show ?thesis by auto
  qed
qed

lemma for_subjects_entry:
  assumes "\<And>s. s \<in> set ss \<Longrightarrow> \<exists>r. body s = Inr r" and "s \<in> set ss"
  shows "\<exists>rs tr r t. for_subjects body ss = Inr (rs, tr) \<and> map fst rs = ss
           \<and> body s = Inr (r, t) \<and> map_of rs s = Some r"
proof -
  let ?f = "\<lambda>s. fst (projr (body s))" and ?g = "\<lambda>s. snd (projr (body s))"
  have b: "body s = Inr (?f s, ?g s)" if "s \<in> set ss" for s
    using assms(1) [OF that] by auto
  then have "for_subjects body ss = Inr (map (\<lambda>s. (s, ?f s)) ss, concat (map ?g ss))"
    by (rule for_subjects_returns)
  moreover have "map_of (map (\<lambda>s. (s, ?f s)) ss) s = Some (?f s)"
    using assms(2) by (simp add: map_of_tabulate)
  moreover have "map fst (map (\<lambda>s. (s, ?f s)) ss) = ss"
    by (simp add: comp_def)
  ultimately show ?thesis
    using b [OF assms(2)] by blast
qed

subsection \<open>The two loop bodies in closed form\<close>

lemma count_correct_bounds:
  "0 \<le> count_correct qs" "count_correct qs \<le> int (length qs)"
  by (simp_all add: count_correct_def)

lemma classifier_on_counts:
  "determine_module2_difficulty self (count_correct qs) (int (length qs))
     = Inr (difficulty_of self (count_correct qs) (int (length qs)),
            classifier_trace (count_correct qs) (int (length qs)))"
  using count_correct_bounds [of qs] by (intro determine_module2_difficulty_returns) simp





lemma analyze_performance_lookup:
  assumes "analyze_performance self student_data source_file = Inr (performance, trace)"
    and "map_of performance subject = Some p"
  shows "subject \<in> set subjects
    \<and> (\<exists>t. analyze_subject self student_data source_file subject = Inr (p, t))"
  using assms unfolding analyze_performance_def by (rule for_subjects_lookup)



text \<open>For \<open>additional_correct \<ge> 0\<close> the hypothetical count stays within the Module 1 total.\<close>

lemma what_if_subject_returns:
  assumes "0 \<le> n"
  shows "\<exists>trace. what_if_subject self student_data source_file n subject = Inr
    (\<lparr>current_score =
        fst (calculate_scaled_score self subject
         (count_correct (module1_data (subject_data student_data subject))
           + count_correct (module2_data (subject_data student_data subject)))
         (difficulty_of self
           (count_correct (module1_data (subject_data student_data subject)))
           (int (length (module1_data (subject_data student_data subject)))))),
      new_score =
        fst (calculate_scaled_score self subject
         (min (count_correct (module1_data (subject_data student_data subject)) + n)
              (int (length (module1_data (subject_data student_data subject))))
           + count_correct (module2_data (subject_data student_data subject)))
         (difficulty_of self
           (min (count_correct (module1_data (subject_data student_data subject)) + n)
                (int (length (module1_data (subject_data student_data subject)))))
           (int (length (module1_data (subject_data student_data subject)))))),
      score_gain =
        fst (calculate_scaled_score self subject
         (min (count_correct (module1_data (subject_data student_data subject)) + n)
              (int (length (module1_data (subject_data student_data subject))))
           + count_correct (module2_data (subject_data student_data subject)))
         (difficulty_of self
           (min (count_correct (module1_data (subject_data student_data subject)) + n)
                (int (length (module1_data (subject_data student_data subject)))))
           (int (length (module1_data (subject_data student_data subject))))))
        - fst (calculate_scaled_score self subject
         (count_correct (module1_data (subject_data student_data subject))
           + count_correct (module2_data (subject_data student_data subject)))
         (difficulty_of self
           (count_correct (module1_data (subject_data student_data subject)))
           (int (length (module1_data (subject_data student_data subject)))))),
      high_impact_questions =
        map impact_entry
          (slice_to (filter (\<lambda>q. \<not> correct q) (module1_data (subject_data student_data subject))) n)\<rparr>,
     trace)"
proof -
  let ?m1 = "module1_data (subject_data student_data subject)"
  have "0 \<le> count_correct ?m1" "count_correct ?m1 \<le> int (length ?m1)"
    by (rule count_correct_bounds)+
  with assms have "\<bar>min (count_correct ?m1 + n) (int (length ?m1))\<bar> \<le> \<bar>int (length ?m1)\<bar>"
    by simp
  then have "determine_module2_difficulty self (min (count_correct ?m1 + n) (int (length ?m1)))
        (int (length ?m1))
      = Inr (difficulty_of self (min (count_correct ?m1 + n) (int (length ?m1))) (int (length ?m1)),
             classifier_trace (min (count_correct ?m1 + n) (int (length ?m1))) (int (length ?m1)))"
    by (intro determine_module2_difficulty_returns) simp
  then show ?thesis
    by (simp add: what_if_subject_def Let_def classifier_on_counts)
qed

lemma what_if_analysis_entry:
  assumes "subject \<in> set subjects" "0 \<le> n"
  shows "\<exists>results trace w t.
      what_if_analysis self student_data source_file n = Inr (results, trace)
      \<and> map fst results = subjects
      \<and> what_if_subject self student_data source_file n subject = Inr (w, t)
      \<and> map_of results subject = Some w"
proof -
  have "\<exists>r. what_if_subject self student_data source_file n s = Inr r" for s
    using what_if_subject_returns [OF assms(2), of self student_data source_file s] by blast
  then show ?thesis
    unfolding what_if_analysis_def using assms(1) by (intro for_subjects_entry) blast+
qed

subsection \<open>The difficulty classifier\<close>

lemma double_2_5: "nearest_double (2 / 5) = 3602879701896397 / 9007199254740992"
  using nearest_double_eqI [of "- 2" "2 / 5" 7205759403792794] by simp

lemma double_10_11: "nearest_double (10 / 11) = 8188362958855447 / 9007199254740992"
  using nearest_double_eqI [of "- 1" "10 / 11" 8188362958855447] by simp

text \<open>
  C3, as amended. For all integers \<open>c\<close> and \<open>t\<close> and every threshold: when \<open>t = 0\<close> the
  classifier returns easy, on the branch that only prints the warning and never forms
  the quotient. When \<open>t \<noteq> 0\<close> it compares the float quotient \<open>c / t\<close>, the exact quotient
  rounded to the nearest double, with the threshold. It raises \<open>OverflowError\<close>, and
  classifies nothing, exactly when the rounded quotient is not a finite double; this
  happens whenever the exact quotient has magnitude \<open>2 ^ 1024\<close> or more, and never when
  \<open>\<bar>c\<bar> \<le> \<bar>t\<bar>\<close>. Otherwise it returns hard exactly when the float quotient is at least
  the threshold, the boundary being hard, and easy exactly when it is below. For a
  threshold that is itself a double, an exact quotient at or above the threshold has a
  float quotient at or above it, and an exact quotient below the threshold has a float
  quotient that is below it or equal to it.
\<close>

theorem classifier_rule:
  "determine_module2_difficulty self c 0
      = Inr (Easy, [Enter_determine_module2_difficulty c 0, Print_default_easy])
   \<and> (t \<noteq> 0 \<longrightarrow>
        (determine_module2_difficulty self c t = Inl OverflowError)
          = (2 ^ 1024 \<le> \<bar>nearest_double (of_int c / of_int t)\<bar>))
   \<and> (t \<noteq> 0 \<longrightarrow> \<bar>nearest_double (of_int c / of_int t)\<bar> < 2 ^ 1024 \<longrightarrow>
        determine_module2_difficulty self c t
          = Inr (if nearest_double (of_int c / of_int t) \<ge> adaptive_threshold self then Hard else Easy,
                 [Enter_determine_module2_difficulty c t]))
   \<and> (t \<noteq> 0 \<longrightarrow> 2 ^ 1024 \<le> \<bar>(of_int c :: rat) / of_int t\<bar> \<longrightarrow>
        determine_module2_difficulty self c t = Inl OverflowError)
   \<and> (t \<noteq> 0 \<longrightarrow> \<bar>c\<bar> \<le> \<bar>t\<bar> \<longrightarrow> \<bar>nearest_double (of_int c / of_int t)\<bar> < 2 ^ 1024)
   \<and> (nearest_double (adaptive_threshold self) = adaptive_threshold self \<longrightarrow>
        adaptive_threshold self \<le> of_int c / of_int t \<longrightarrow>
        adaptive_threshold self \<le> nearest_double (of_int c / of_int t))
   \<and> (nearest_double (adaptive_threshold self) = adaptive_threshold self \<longrightarrow>
        of_int c / of_int t < adaptive_threshold self \<longrightarrow>
        nearest_double (of_int c / of_int t) \<le> adaptive_threshold self)"
proof -
  let ?x = "(of_int c :: rat) / of_int t"
  have zero: "determine_module2_difficulty self c 0
      = Inr (Easy, [Enter_determine_module2_difficulty c 0, Print_default_easy])"
    by (simp add: determine_module2_difficulty_def)
  have raise: "(determine_module2_difficulty self c t = Inl OverflowError)
      = (2 ^ 1024 \<le> \<bar>nearest_double ?x\<bar>)" if "t \<noteq> 0"
    using that by (simp add: determine_module2_difficulty_def py_truediv_def)
  have ret: "determine_module2_difficulty self c t
      = Inr (if nearest_double ?x \<ge> adaptive_threshold self then Hard else Easy,
             [Enter_determine_module2_difficulty c t])"
    if "t \<noteq> 0" "\<bar>nearest_double ?x\<bar> < 2 ^ 1024"
    using that by (simp add: determine_module2_difficulty_def py_truediv_def)
  have big: "determine_module2_difficulty self c t = Inl OverflowError"
    if "t \<noteq> 0" "2 ^ 1024 \<le> \<bar>?x\<bar>"
    using that by (simp add: determine_module2_difficulty_def py_truediv_overflow)
  have small: "\<bar>nearest_double ?x\<bar> < 2 ^ 1024" if "t \<noteq> 0" "\<bar>c\<bar> \<le> \<bar>t\<bar>"
  proof -
    from that have "\<bar>?x\<bar> \<le> 1" by (simp add: abs_divide)
    then have "\<bar>nearest_double ?x\<bar> \<le> 1" by (rule nearest_double_small)
    also have "(1::rat) < 2 ^ 1024" by simp
    finally show ?thesis .
  qed
  have up: "adaptive_threshold self \<le> nearest_double ?x"
    if "nearest_double (adaptive_threshold self) = adaptive_threshold self"
      "adaptive_threshold self \<le> ?x"
    using nearest_double_mono [OF that(2)] that(1) by simp
  have down: "nearest_double ?x \<le> adaptive_threshold self"
    if "nearest_double (adaptive_threshold self) = adaptive_threshold self"
      "?x < adaptive_threshold self"
    using nearest_double_mono [of ?x "adaptive_threshold self"] that by simp
  from zero raise ret big small up down show ?thesis by blast
qed

theorem classifier_rule_witness:
  "determine_module2_difficulty placeholder_analyzer 7 0
      = Inr (Easy, [Enter_determine_module2_difficulty 7 0, Print_default_easy])
   \<and> determine_module2_difficulty placeholder_analyzer 3 5
      = Inr (Hard, [Enter_determine_module2_difficulty 3 5])
   \<and> nearest_double (of_int 3 / of_int 5) = adaptive_threshold placeholder_analyzer
   \<and> determine_module2_difficulty placeholder_analyzer 2 5
      = Inr (Easy, [Enter_determine_module2_difficulty 2 5])
   \<and> determine_module2_difficulty placeholder_analyzer 20 22
      = Inr (Hard, [Enter_determine_module2_difficulty 20 22])"
proof -
  have a: "\<bar>nearest_double (of_int 3 / of_int 5)\<bar> < 2 ^ 1024"
    "\<bar>nearest_double (of_int 2 / of_int 5)\<bar> < 2 ^ 1024"
    "\<bar>nearest_double (of_int 20 / of_int 22)\<bar> < 2 ^ 1024"
    using classifier_rule [of placeholder_analyzer 3 5]
      classifier_rule [of placeholder_analyzer 2 5]
      classifier_rule [of placeholder_analyzer 20 22]
    by simp_all
  have b: "nearest_double (of_int 3 / of_int 5) = 5404319552844595 / 9007199254740992"
    "nearest_double (of_int 2 / of_int 5) = 3602879701896397 / 9007199254740992"
    "nearest_double (of_int 20 / of_int 22) = 8188362958855447 / 9007199254740992"
    by (simp_all add: double_0_6 double_2_5 double_10_11)
  from a classifier_rule [of placeholder_analyzer 7 5]
    classifier_rule [of placeholder_analyzer 3 5]
    classifier_rule [of placeholder_analyzer 2 5]
    classifier_rule [of placeholder_analyzer 20 22]
  show ?thesis
    unfolding b by (simp add: placeholder_analyzer_maps)
qed

text \<open>
  C3, as stated, has the classifier return hard for all integers whenever \<open>c / t\<close> is at
  least the threshold, and only then. With the threshold 0.6: at \<open>c = 2 ^ 1024\<close>,
  \<open>t = 1\<close> the quotient is far above the threshold, yet the division raises
  \<open>OverflowError\<close> and nothing is returned; at \<open>c = 599999999999999977\<close>, \<open>t = 10 ^ 18\<close>
  the exact quotient is below the threshold, yet the float quotient is the threshold
  itself and the classifier returns hard.
\<close>

theorem classifier_overflow_and_rounding:
  "determine_module2_difficulty placeholder_analyzer (2 ^ 1024) 1 = Inl OverflowError
   \<and> adaptive_threshold placeholder_analyzer \<le> of_int (2 ^ 1024) / of_int 1
   \<and> determine_module2_difficulty placeholder_analyzer 599999999999999977 (10 ^ 18)
      = Inr (Hard, [Enter_determine_module2_difficulty 599999999999999977 (10 ^ 18)])
   \<and> of_int 599999999999999977 / of_int (10 ^ 18) < adaptive_threshold placeholder_analyzer"
proof -
  have "py_truediv (2 ^ 1024) 1 = Inl OverflowError"
    by (rule py_truediv_overflow) simp_all
  then have a: "determine_module2_difficulty placeholder_analyzer (2 ^ 1024) 1 = Inl OverflowError"
    by (simp add: determine_module2_difficulty_def)
  have "nearest_double (599999999999999977 / 10 ^ 18) = 5404319552844595 / 9007199254740992"
    using nearest_double_eqI [of "- 1" "599999999999999977 / 10 ^ 18" 5404319552844595] by simp
  then have "py_truediv 599999999999999977 (10 ^ 18) = Inr (5404319552844595 / 9007199254740992)"
    by (simp add: py_truediv_def)
  then have b: "determine_module2_difficulty placeholder_analyzer 599999999999999977 (10 ^ 18)
      = Inr (Hard, [Enter_determine_module2_difficulty 599999999999999977 (10 ^ 18)])"
    by (simp add: determine_module2_difficulty_def placeholder_analyzer_maps)
  from a b show ?thesis
    by (simp add: placeholder_analyzer_maps)
qed

subsection \<open>The scaled-score calculator\<close>

text \<open>
  C4. For every subject, raw score and tier: when no item of the scoring maps has the
  subject as its key, or when no entry of the subject's map has exactly that raw score,
  the calculator returns 200. There is no interpolation or extrapolation: whatever the
  arguments, the result is either 200 or the tier's value of an entry of the subject's
  map whose raw score is exactly the one asked for.
\<close>

theorem uncovered_score_default:
  "(((\<forall>item \<in> set (scoring_maps self). key item \<noteq> subject)
      \<or> (\<exists>m. map_data_of self subject = Some m \<and> (\<forall>e \<in> set m. raw e \<noteq> r)))
     \<longrightarrow> fst (calculate_scaled_score self subject r d) = 200)
   \<and> (fst (calculate_scaled_score self subject r d) = 200
      \<or> (\<exists>m e. map_data_of self subject = Some m \<and> e \<in> set m \<and> raw e = r
             \<and> fst (calculate_scaled_score self subject r d) = tier_value e d))"
proof (intro conjI impI)
  assume "(\<forall>item \<in> set (scoring_maps self). key item \<noteq> subject)
      \<or> (\<exists>m. map_data_of self subject = Some m \<and> (\<forall>e \<in> set m. raw e \<noteq> r))"
  then show "fst (calculate_scaled_score self subject r d) = 200"
  proof
    assume "\<forall>item \<in> set (scoring_maps self). key item \<noteq> subject"
    then have "find (\<lambda>item. key item = subject) (scoring_maps self) = None"
      by (simp add: find_None_iff)
    then show ?thesis
      by (simp add: calculate_scaled_score_def map_data_of_def)
  next
    assume "\<exists>m. map_data_of self subject = Some m \<and> (\<forall>e \<in> set m. raw e \<noteq> r)"
    then obtain m where m: "map_data_of self subject = Some m" and "\<forall>e \<in> set m. raw e \<noteq> r"
      by blast
    then have "find (\<lambda>score. raw score = r) m = None"
      by (simp add: find_None_iff)
    then show ?thesis using m by (rule find_None_default)
  qed
next
  show "fst (calculate_scaled_score self subject r d) = 200
      \<or> (\<exists>m e. map_data_of self subject = Some m \<and> e \<in> set m \<and> raw e = r
             \<and> fst (calculate_scaled_score self subject r d) = tier_value e d)"
  proof (cases "map_data_of self subject")
    case None
    then show ?thesis by (simp add: calculate_scaled_score_def)
  next
    case (Some m)
    show ?thesis
    proof (cases "find (\<lambda>score. raw score = r) m")
      case None
      with Some show ?thesis by (simp add: find_None_default)
    next
      case (Some e)
      then have "e \<in> set m" "raw e = r"
        by (auto simp: find_Some_iff)
      moreover from Some \<open>map_data_of self subject = Some m\<close>
      have "fst (calculate_scaled_score self subject r d) = tier_value e d"
        by (cases m) (simp_all add: calculate_scaled_score_def)
      ultimately show ?thesis using \<open>map_data_of self subject = Some m\<close> by blast
    qed
  qed
qed

theorem uncovered_score_default_witness:
  "fst (calculate_scaled_score placeholder_analyzer ''Physics'' 3 Hard) = 200
   \<and> fst (calculate_scaled_score placeholder_analyzer ''Math'' 45 Easy) = 200"
proof -
  have a: "\<forall>item \<in> set (scoring_maps placeholder_analyzer). key item \<noteq> ''Physics''"
    by (simp add: placeholder_analyzer_maps placeholder_maps_def)
  have b: "\<exists>m. map_data_of placeholder_analyzer ''Math'' = Some m \<and> (\<forall>e \<in> set m. raw e \<noteq> 45)"
    by (auto simp: map_data_of_placeholder)
  from a b uncovered_score_default [of placeholder_analyzer "''Physics''" 3 Hard]
    uncovered_score_default [of placeholder_analyzer "''Math''" 45 Easy]
  show ?thesis by blast
qed

subsection \<open>The placeholder maps\<close>

text \<open>
  C2. The claim is that every scaled value of the placeholder maps lies in \<open>[200, 800]\<close>.
  It fails on the Math map, whose hard tier is \<open>200 + 15 * raw\<close> for raw scores up to 44:
  the entry of raw score 44 is stored with the hard value 860, and the calculator
  returns it.
\<close>

theorem placeholder_math_hard_exceeds_800:
  "scoring_maps (init None (3 / 5)) = placeholder_maps
   \<and> placeholder_scoring (init None (3 / 5))
   \<and> \<lparr>raw = 44, hard = 860, easy = 640\<rparr> \<in> set (map_entries (hd placeholder_maps))
   \<and> fst (calculate_scaled_score placeholder_analyzer ''Math'' 44 Hard) = 860"
proof -
  have "\<lparr>raw = 44, hard = 860, easy = 640\<rparr>
      = (\<lambda>i. \<lparr>raw = int i, hard = 200 + int i * 15, easy = 200 + int i * 10\<rparr>) 44"
    by simp
  then have "\<lparr>raw = 44, hard = 860, easy = 640\<rparr> \<in> set (map_entries (hd placeholder_maps))"
    unfolding placeholder_maps_def by (simp add: image_iff del: upt_rec_numeral)
  then show ?thesis
    by (simp add: init_def placeholder_math_score)
qed

subsection \<open>The sample inputs, partitioned\<close>


lemma sample_subject_data:
  "subject_data sample_data ''Math'' =
     [mk_response ''q1'' ''Math'' ''Static'' ''Algebra'' True 30000,
      mk_response ''q2'' ''Math'' ''Static'' ''Algebra'' False 61000,
      mk_response ''q3'' ''Math'' ''Static'' ''Geometry'' False 60000,
      mk_response ''q4'' ''Math'' ''Hard'' ''Geometry'' True 45000,
      mk_response ''q5'' ''Math'' ''Review'' ''Geometry'' False 90000]"
  by (simp add: sample_data_def subject_data_def mk_response_def)

lemma sample_module1_data:
  "module1_data (subject_data sample_data ''Math'') =
     [mk_response ''q1'' ''Math'' ''Static'' ''Algebra'' True 30000,
      mk_response ''q2'' ''Math'' ''Static'' ''Algebra'' False 61000,
      mk_response ''q3'' ''Math'' ''Static'' ''Geometry'' False 60000]"
  unfolding sample_subject_data by (simp add: module1_data_def mk_response_def)

lemma sample_module2_data:
  "module2_data (subject_data sample_data ''Math'') =
     [mk_response ''q4'' ''Math'' ''Hard'' ''Geometry'' True 45000]"
  unfolding sample_subject_data
  by (simp add: module2_data_def in_module2_def module2_labels_def mk_response_def)

lemma sample_counts:
  "count_correct (module1_data (subject_data sample_data ''Math'')) = 1"
  "count_correct (module2_data (subject_data sample_data ''Math'')) = 1"
  "int (length (module1_data (subject_data sample_data ''Math''))) = 3"
  "filter (\<lambda>q. \<not> correct q) (module1_data (subject_data sample_data ''Math'')) =
     [mk_response ''q2'' ''Math'' ''Static'' ''Algebra'' False 61000,
      mk_response ''q3'' ''Math'' ''Static'' ''Geometry'' False 60000]"
  unfolding sample_module1_data sample_module2_data
  by (simp_all add: count_correct_def mk_response_def)

lemma sample_scores:
  "difficulty_of placeholder_analyzer 1 3 = Easy"
  "difficulty_of placeholder_analyzer 3 3 = Hard"
  "difficulty_of placeholder_analyzer 0 0 = Easy"
  "fst (calculate_scaled_score placeholder_analyzer ''Math'' 2 Easy) = 220"
  "fst (calculate_scaled_score placeholder_analyzer ''Math'' 4 Hard) = 260"
  "fst (calculate_scaled_score placeholder_analyzer ''Math'' 1 Easy) = 210"
proof -
  show "difficulty_of placeholder_analyzer 1 3 = Easy"
    by (rule difficulty_of_easy [where b = "1 / 2"])
      (simp_all add: nearest_double_half placeholder_analyzer_maps)
  show "difficulty_of placeholder_analyzer 3 3 = Hard"
    by (rule difficulty_of_hard)
      (simp_all add: placeholder_threshold_double, simp add: placeholder_analyzer_maps)
  show "difficulty_of placeholder_analyzer 0 0 = Easy"
    by (simp add: difficulty_of_def)
qed (simp_all add: placeholder_math_score)

subsection \<open>The report of the script\<close>





subsection \<open>The what-if current score against the summary\<close>






subsection \<open>The short-circuit of a subject without Module 1 responses\<close>



subsection \<open>The hypothetical of the what-if analysis\<close>

lemma count_correct_split:
  "count_correct qs + int (length (filter (\<lambda>q. \<not> correct q) qs)) = int (length qs)"
  unfolding count_correct_def
  using sum_length_filter_compl [of correct qs] by linarith

text \<open>
  C6. For every subject and every \<open>additional_correct \<ge> 0\<close>, the what-if analysis returns,
  and it takes
  \<open>new_module1_correct = min (module1_correct + additional_correct) module1_total\<close>,
  classifies the difficulty again from the new Module 1 ratio, adds the unchanged
  Module 2 correct count to get the new raw score, and reads \<open>new_score\<close> from the same
  calculator at (subject, new raw score, new difficulty); \<open>score_gain\<close> is
  \<open>new_score - current_score\<close>. Both calls of the classifier return. The new Module 1
  count lies between the old one and the Module 1 total, and the raw score grows by the
  number of flipped answers, which is \<open>additional_correct\<close> capped by the number of
  incorrect Module 1 responses.
\<close>

theorem what_if_hypothetical:
  assumes "subject \<in> set subjects" and "0 \<le> n"
  shows "\<exists>results trace w current_difficulty new_difficulty.
      what_if_analysis self student_data source_file n = Inr (results, trace)
    \<and> map_of results subject = Some w
    \<and> (let m1 = module1_data (subject_data student_data subject);
            m2 = module2_data (subject_data student_data subject);
            new_module1_correct = min (count_correct m1 + n) (int (length m1));
            new_raw_score = new_module1_correct + count_correct m2
        in determine_module2_difficulty self (count_correct m1) (int (length m1))
             = Inr current_difficulty
         \<and> determine_module2_difficulty self new_module1_correct (int (length m1))
             = Inr new_difficulty
         \<and> new_score w
             = fst (calculate_scaled_score self subject new_raw_score (fst new_difficulty))
         \<and> current_score w =
              fst (calculate_scaled_score self subject (count_correct m1 + count_correct m2)
                (fst current_difficulty))
         \<and> score_gain w = new_score w - current_score w
         \<and> count_correct m1 \<le> new_module1_correct
         \<and> new_module1_correct \<le> int (length m1)
         \<and> new_raw_score = count_correct m1 + count_correct m2
               + min n (int (length (filter (\<lambda>q. \<not> correct q) m1))))"
proof -
  let ?m1 = "module1_data (subject_data student_data subject)"
  let ?new = "min (count_correct ?m1 + n) (int (length ?m1))"
  obtain results trace w t where res:
      "what_if_analysis self student_data source_file n = Inr (results, trace)"
      "what_if_subject self student_data source_file n subject = Inr (w, t)"
      "map_of results subject = Some w"
    using what_if_analysis_entry [OF assms, of self student_data source_file] by blast
  from what_if_subject_returns [OF assms(2), of self student_data source_file subject] res(2)
  have w: "current_score w =
        fst (calculate_scaled_score self subject
          (count_correct ?m1 + count_correct (module2_data (subject_data student_data subject)))
          (difficulty_of self (count_correct ?m1) (int (length ?m1))))"
    "new_score w =
        fst (calculate_scaled_score self subject
          (?new + count_correct (module2_data (subject_data student_data subject)))
          (difficulty_of self ?new (int (length ?m1))))"
    "score_gain w = new_score w - current_score w"
    by auto
  have split: "count_correct ?m1 + int (length (filter (\<lambda>q. \<not> correct q) ?m1))
      = int (length ?m1)"
    by (rule count_correct_split)
  have bounds: "0 \<le> count_correct ?m1" "count_correct ?m1 \<le> int (length ?m1)"
    by (rule count_correct_bounds)+
  have cur: "determine_module2_difficulty self (count_correct ?m1) (int (length ?m1))
      = Inr (difficulty_of self (count_correct ?m1) (int (length ?m1)),
             classifier_trace (count_correct ?m1) (int (length ?m1)))"
    by (rule classifier_on_counts)
  from bounds assms(2) have "\<bar>?new\<bar> \<le> \<bar>int (length ?m1)\<bar>" by simp
  then have new: "determine_module2_difficulty self ?new (int (length ?m1))
      = Inr (difficulty_of self ?new (int (length ?m1)),
             classifier_trace ?new (int (length ?m1)))"
    by (intro determine_module2_difficulty_returns) simp
  have arith: "count_correct ?m1 \<le> ?new" "?new \<le> int (length ?m1)"
    "?new = count_correct ?m1 + min n (int (length (filter (\<lambda>q. \<not> correct q) ?m1)))"
    using split bounds assms(2) by linarith+
  from res(1) res(3) cur new w arith show ?thesis
    unfolding Let_def
    by (intro exI [of _ results] exI [of _ trace] exI [of _ w]
        exI [of _ "(difficulty_of self (count_correct ?m1) (int (length ?m1)),
                    classifier_trace (count_correct ?m1) (int (length ?m1)))"]
        exI [of _ "(difficulty_of self ?new (int (length ?m1)),
                    classifier_trace ?new (int (length ?m1)))"])
      simp
qed

theorem what_if_hypothetical_witness:
  "''Math'' \<in> set subjects
   \<and> (\<exists>results trace w.
        what_if_analysis placeholder_analyzer sample_data ''a.json'' 2 = Inr (results, trace)
        \<and> map_of results ''Math'' = Some w
        \<and> current_score w = 220 \<and> new_score w = 260 \<and> score_gain w = 40)"
proof -
  have s: "''Math'' \<in> set subjects"
    by (simp add: subjects_def)
  have n: "(0::int) \<le> 2" by simp
  have d: "determine_module2_difficulty placeholder_analyzer 1 3
        = Inr (difficulty_of placeholder_analyzer 1 3, classifier_trace 1 3)"
    "determine_module2_difficulty placeholder_analyzer 3 3
        = Inr (difficulty_of placeholder_analyzer 3 3, classifier_trace 3 3)"
    by (rule determine_module2_difficulty_returns, simp)+
  from what_if_hypothetical [OF s n, of placeholder_analyzer sample_data "''a.json''"]
  obtain results trace w current_difficulty new_difficulty where
      a: "what_if_analysis placeholder_analyzer sample_data ''a.json'' 2 = Inr (results, trace)"
        "map_of results ''Math'' = Some w"
      and b: "determine_module2_difficulty placeholder_analyzer 1 3 = Inr current_difficulty"
        "determine_module2_difficulty placeholder_analyzer 3 3 = Inr new_difficulty"
      and c: "new_score w
          = fst (calculate_scaled_score placeholder_analyzer ''Math'' 4 (fst new_difficulty))"
        "current_score w
          = fst (calculate_scaled_score placeholder_analyzer ''Math'' 2 (fst current_difficulty))"
        "score_gain w = new_score w - current_score w"
    unfolding Let_def sample_counts by auto
  from b d have "fst current_difficulty = Easy" "fst new_difficulty = Hard"
    by (auto simp: sample_scores)
  with c have "current_score w = 220" "new_score w = 260" "score_gain w = 40"
    by (simp_all add: sample_scores)
  with a s show ?thesis by blast
qed

subsection \<open>The high-impact questions\<close>

text \<open>
  C7. For every subject and every \<open>additional_correct \<ge> 0\<close>, the what-if analysis returns
  and \<open>high_impact_questions\<close> is made from the first \<open>additional_correct\<close> incorrect
  Module 1 responses of the subject, in their original order, as many as there are: its
  length is the minimum of \<open>additional_correct\<close> and the number of incorrect Module 1
  responses. The entry of a response carries its question id (the \<open>_id\<close> when the
  response has no \<open>question_id\<close>), its topic, and its complexity label: the value of the
  misspelled field \<open>compleixty\<close> when present, else the value of \<open>complexity\<close> when
  present, else \<open>Unknown\<close>.
\<close>

theorem high_impact_selection:
  assumes "subject \<in> set subjects" and "0 \<le> n"
  shows "\<exists>results trace w.
      what_if_analysis self student_data source_file n = Inr (results, trace)
    \<and> map_of results subject = Some w
    \<and> high_impact_questions w =
        map (\<lambda>q. \<lparr>impact_question_id =
                      (case question_id q of Some i \<Rightarrow> Some i | None \<Rightarrow> rec_id q),
                   impact_topic = topic_name q,
                   impact_complexity =
                      (case compleixty q of
                         Some c \<Rightarrow> c
                       | None \<Rightarrow> (case complexity q of Some c \<Rightarrow> c | None \<Rightarrow> ''Unknown''))\<rparr>)
          (take (nat n)
            (filter (\<lambda>q. \<not> correct q)
              (filter (\<lambda>q. section_tag q = Some ''Static'')
                (filter (\<lambda>q. subject_name q = Some subject) student_data))))
    \<and> length (high_impact_questions w) =
        min (nat n)
          (length (filter (\<lambda>q. subject_name q = Some subject \<and> section_tag q = Some ''Static''
                                \<and> \<not> correct q) student_data))"
proof -
  obtain results trace w t where res:
      "what_if_analysis self student_data source_file n = Inr (results, trace)"
      "what_if_subject self student_data source_file n subject = Inr (w, t)"
      "map_of results subject = Some w"
    using what_if_analysis_entry [OF assms, of self student_data source_file] by blast
  from what_if_subject_returns [OF assms(2), of self student_data source_file subject] res(2)
  have "high_impact_questions w =
      map impact_entry
        (slice_to (filter (\<lambda>q. \<not> correct q) (module1_data (subject_data student_data subject))) n)"
    by auto
  with assms(2) have hi: "high_impact_questions w =
      map (\<lambda>q. \<lparr>impact_question_id =
                    (case question_id q of Some i \<Rightarrow> Some i | None \<Rightarrow> rec_id q),
                 impact_topic = topic_name q,
                 impact_complexity =
                    (case compleixty q of
                       Some c \<Rightarrow> c
                     | None \<Rightarrow> (case complexity q of Some c \<Rightarrow> c | None \<Rightarrow> ''Unknown''))\<rparr>)
        (take (nat n)
          (filter (\<lambda>q. \<not> correct q)
            (filter (\<lambda>q. section_tag q = Some ''Static'')
              (filter (\<lambda>q. subject_name q = Some subject) student_data))))"
    by (simp add: slice_to_def impact_entry_def [abs_def] complexity_of_def id_of_def
        module1_data_def subject_data_def)
  have "length (high_impact_questions w) =
      min (nat n)
        (length (filter (\<lambda>q. subject_name q = Some subject \<and> section_tag q = Some ''Static''
                              \<and> \<not> correct q) student_data))"
    unfolding hi by (simp add: min.commute conj_commute conj_left_commute)
  with res(1) res(3) hi show ?thesis by blast
qed

theorem high_impact_selection_witness:
  "''Math'' \<in> set subjects
   \<and> (\<exists>results trace w.
        what_if_analysis placeholder_analyzer labelled_data ''a.json'' 5 = Inr (results, trace)
        \<and> map_of results ''Math'' = Some w
        \<and> high_impact_questions w
          = [\<lparr>impact_question_id = Some ''q1'', impact_topic = Some ''Algebra'',
               impact_complexity = ''hard''\<rparr>,
             \<lparr>impact_question_id = Some ''q2'', impact_topic = None,
               impact_complexity = ''medium''\<rparr>,
             \<lparr>impact_question_id = Some ''q3'', impact_topic = Some ''Geometry'',
               impact_complexity = ''Unknown''\<rparr>,
             \<lparr>impact_question_id = Some ''r4'', impact_topic = Some ''Geometry'',
               impact_complexity = ''easy''\<rparr>])
   \<and> (\<exists>results trace w.
        what_if_analysis placeholder_analyzer labelled_data ''a.json'' 2 = Inr (results, trace)
        \<and> map_of results ''Math'' = Some w
        \<and> high_impact_questions w
          = [\<lparr>impact_question_id = Some ''q1'', impact_topic = Some ''Algebra'',
               impact_complexity = ''hard''\<rparr>,
             \<lparr>impact_question_id = Some ''q2'', impact_topic = None,
               impact_complexity = ''medium''\<rparr>])"
proof -
  have s: "''Math'' \<in> set subjects"
    by (simp add: subjects_def)
  have n: "(0::int) \<le> 5" "(0::int) \<le> 2" by simp_all
  have f: "filter (\<lambda>q. \<not> correct q)
      (filter (\<lambda>q. section_tag q = Some ''Static'')
        (filter (\<lambda>q. subject_name q = Some ''Math'') labelled_data)) = labelled_data"
    by (simp add: labelled_data_def)
  let ?entry = "\<lambda>q. \<lparr>impact_question_id =
                      (case question_id q of Some i \<Rightarrow> Some i | None \<Rightarrow> rec_id q),
                   impact_topic = topic_name q,
                   impact_complexity =
                      (case compleixty q of
                         Some c \<Rightarrow> c
                       | None \<Rightarrow> (case complexity q of Some c \<Rightarrow> c | None \<Rightarrow> ''Unknown''))\<rparr>"
  from high_impact_selection [OF s n(1), of placeholder_analyzer labelled_data "''a.json''"]
  obtain results trace w where
      a: "what_if_analysis placeholder_analyzer labelled_data ''a.json'' 5 = Inr (results, trace)"
        "map_of results ''Math'' = Some w"
      and hi: "high_impact_questions w = map ?entry (take (nat 5) labelled_data)"
    unfolding f by blast
  from high_impact_selection [OF s n(2), of placeholder_analyzer labelled_data "''a.json''"]
  obtain results' trace' w' where
      a': "what_if_analysis placeholder_analyzer labelled_data ''a.json'' 2 = Inr (results', trace')"
        "map_of results' ''Math'' = Some w'"
      and hi': "high_impact_questions w' = map ?entry (take (nat 2) labelled_data)"
    unfolding f by blast
  from hi have "high_impact_questions w
          = [\<lparr>impact_question_id = Some ''q1'', impact_topic = Some ''Algebra'',
               impact_complexity = ''hard''\<rparr>,
             \<lparr>impact_question_id = Some ''q2'', impact_topic = None,
               impact_complexity = ''medium''\<rparr>,
             \<lparr>impact_question_id = Some ''q3'', impact_topic = Some ''Geometry'',
               impact_complexity = ''Unknown''\<rparr>,
             \<lparr>impact_question_id = Some ''r4'', impact_topic = Some ''Geometry'',
               impact_complexity = ''easy''\<rparr>]"
    by (simp add: labelled_data_def)
  moreover from hi' have "high_impact_questions w'
          = [\<lparr>impact_question_id = Some ''q1'', impact_topic = Some ''Algebra'',
               impact_complexity = ''hard''\<rparr>,
             \<lparr>impact_question_id = Some ''q2'', impact_topic = None,
               impact_complexity = ''medium''\<rparr>]"
    by (simp add: labelled_data_def numeral_2_eq_2)
  ultimately show ?thesis
    using a a' s by blast
qed

subsection \<open>Slow questions\<close>




subsection \<open>The topic statistics in closed form\<close>













subsection \<open>Responses whose section label belongs to neither module\<close>







subsection \<open>The prediction accuracy in closed form\<close>

lemma accuracy_loop:
  "foldl (accuracy_step threshold) (a, b) data =
     (a + int (length (filter (\<lambda>s. module1_total s \<noteq> 0 \<and> predicts threshold s) data)),
      b + int (length (filter (\<lambda>s. module1_total s \<noteq> 0) data)))"
  by (induction data arbitrary: a b) (auto simp: accuracy_step_def predicts_def Let_def)

lemma calculate_prediction_accuracy_eq:
  "calculate_prediction_accuracy data threshold =
     (if filter (\<lambda>s. module1_total s \<noteq> 0) data = [] then 0
      else of_int (int (length (filter (\<lambda>s. module1_total s \<noteq> 0 \<and> predicts threshold s) data)))
           / of_int (int (length (filter (\<lambda>s. module1_total s \<noteq> 0) data))))"
  by (simp add: calculate_prediction_accuracy_def accuracy_loop)

lemma calculate_prediction_accuracy_nonneg:
  "0 \<le> calculate_prediction_accuracy data threshold"
  by (simp add: calculate_prediction_accuracy_eq)

subsection \<open>The scan over the candidate thresholds\<close>



subsection \<open>The calibrated threshold\<close>





end
